theory Spec2Isabelle
  imports Main "HOL-Library.Word"
begin

unbundle bit_operations_syntax

section \<open>Data model of the rotary switch\<close>

text \<open>
  The switch package declares
  \<^verbatim>\<open>type RotarySwitchValue int\<close> with the constants \<^verbatim>\<open>DirectionCCW\<close>,
  \<^verbatim>\<open>DirectionCW\<close>, \<^verbatim>\<open>ButtonPress\<close>, \<^verbatim>\<open>ButtonRelease\<close> (in this order), and reads pins
  whose level is \<^verbatim>\<open>gpio.Low\<close> or \<^verbatim>\<open>gpio.High\<close>.
\<close>

datatype RotarySwitchValue = DirectionCCW | DirectionCW | ButtonPress | ButtonRelease

datatype Level = Low | High

text \<open>Go's \<^verbatim>\<open>int\<close> on a 64-bit target: addition and subtraction wrap, comparisons are signed.\<close>

type_synonym go_int = "64 word"

text \<open>
  A buffered Go channel: the queued values, oldest first, and the capacity given to
  \<^verbatim>\<open>make\<close>. A send on a full channel blocks the sending goroutine; the model returns
  \<open>None\<close> for it. A receive takes the oldest value; on an empty channel the receiver
  waits, which leaves the channel as it is.
\<close>

record 'a chan =
  buf :: "'a list"
  cap :: nat

definition make_chan :: "nat \<Rightarrow> 'a chan" where
  "make_chan n = \<lparr>buf = [], cap = n\<rparr>"

definition chan_send :: "'a chan \<Rightarrow> 'a \<Rightarrow> 'a chan option" where
  "chan_send c v = (if length (buf c) < cap c then Some (c\<lparr>buf := buf c @ [v]\<rparr>) else None)"

definition chan_recv :: "'a chan \<Rightarrow> 'a chan" where
  "chan_recv c = c\<lparr>buf := tl (buf c)\<rparr>"

text \<open>\<^verbatim>\<open>len(ch)\<close>: the number of queued values, as a mathematical integer.\<close>

definition len :: "'a chan \<Rightarrow> int" where
  "len c = int (length (buf c))"

text \<open>
  The struct \<^verbatim>\<open>RotarySwitch\<close>. The three pins are the environment: the levels
  they show are the arguments of the handlers below.
\<close>

record RotarySwitch =
  ch :: "RotarySwitchValue chan"
  channelSize :: go_int
  position :: go_int
  wrap_position :: bool
  max_positions :: go_int
  state :: go_int
  last_button :: Level
  loose :: bool
  terminating :: bool

definition stateInvalid :: go_int where
  "stateInvalid = 0xf"

definition SetLooseMode :: "RotarySwitch \<Rightarrow> bool \<Rightarrow> RotarySwitch" where
  "SetLooseMode sw mode = sw\<lparr>loose := mode\<rparr>"

definition SetWrap :: "RotarySwitch \<Rightarrow> bool \<Rightarrow> RotarySwitch" where
  "SetWrap sw mode = sw\<lparr>wrap_position := mode\<rparr>"

definition Position :: "RotarySwitch \<Rightarrow> go_int" where
  "Position sw = position sw"

section \<open>The quadrature decoder\<close>

text \<open>
  The first statements of the loop body of \<^verbatim>\<open>rotaryHandler\<close>:
  \<^verbatim>\<open>sw.state = (sw.state & 0x03) << 2\<close>, then \<^verbatim>\<open>sw.state |= 0x01\<close> when the data pin
  reads high and \<^verbatim>\<open>sw.state |= 0x02\<close> when the state pin reads high.
\<close>

definition shift_state :: "go_int \<Rightarrow> Level \<Rightarrow> Level \<Rightarrow> go_int" where
  "shift_state st data_lv st_lv =
     (let s0 = push_bit 2 (st AND 0x03);
          s1 = (if data_lv = High then s0 OR 0x01 else s0)
      in if st_lv = High then s1 OR 0x02 else s1)"

text \<open>
  One pass through the loop of \<^verbatim>\<open>rotaryHandler\<close>, entered when \<^verbatim>\<open>WaitForEdge\<close> on the
  state pin returns; \<open>data_lv\<close> and \<open>st_lv\<close> are what the two \<^verbatim>\<open>Read\<close> calls return.
  When \<^verbatim>\<open>terminating\<close> is set the goroutine returns and the switch is left as it is.
  The result is \<open>None\<close> when the pass blocks in a channel send.
\<close>

definition rotaryHandler :: "RotarySwitch \<Rightarrow> Level \<Rightarrow> Level \<Rightarrow> RotarySwitch option" where
  "rotaryHandler sw0 data_lv st_lv =
     (if terminating sw0 then Some sw0
      else
        let sw = sw0\<lparr>state := shift_state (state sw0) data_lv st_lv\<rparr> in
        if len (ch sw) = sint (channelSize sw) then Some sw
        else if state sw = 0x06 \<or> (loose sw \<and> state sw = 0x07) then
          (let p = position sw + 1;
               p' = (if max_positions sw \<le>s p
                     then (if wrap_position sw then 0 else max_positions sw)
                     else p)
           in case chan_send (ch sw) DirectionCW of
                None \<Rightarrow> None
              | Some c \<Rightarrow> Some (sw\<lparr>position := p', ch := c, state := stateInvalid\<rparr>))
        else if state sw = 0x03 then
          (let p = position sw - 1;
               p' = (if p <s 0
                     then (if wrap_position sw then max_positions sw - 1 else 0)
                     else p)
           in case chan_send (ch sw) DirectionCCW of
                None \<Rightarrow> None
              | Some c \<Rightarrow> Some (sw\<lparr>position := p', ch := c, state := stateInvalid\<rparr>))
        else Some sw)"

section \<open>The button decoder\<close>

text \<open>
  One pass through the loop of \<^verbatim>\<open>buttonHandler\<close>; \<open>lv\<close> is what \<^verbatim>\<open>button_pin.Read()\<close>
  returns.
\<close>

definition buttonHandler :: "RotarySwitch \<Rightarrow> Level \<Rightarrow> RotarySwitch option" where
  "buttonHandler sw lv =
     (if terminating sw then Some sw
      else if len (ch sw) < sint (channelSize sw) then
        (if lv = High \<and> last_button sw = Low then
           (case chan_send (ch sw) ButtonRelease of
              None \<Rightarrow> None
            | Some c \<Rightarrow> Some (sw\<lparr>ch := c, last_button := lv\<rparr>))
         else if lv = Low \<and> last_button sw = High then
           (case chan_send (ch sw) ButtonPress of
              None \<Rightarrow> None
            | Some c \<Rightarrow> Some (sw\<lparr>ch := c, last_button := lv\<rparr>))
         else Some (sw\<lparr>last_button := lv\<rparr>))
      else Some sw)"

section \<open>Construction\<close>

text \<open>
  \<^verbatim>\<open>NewRotarySwitch\<close>: a channel of capacity 16, the same number in \<^verbatim>\<open>channelSize\<close>,
  wrap and loose mode on, the shift state at the sentinel, the button level low;
  \<^verbatim>\<open>position\<close> and \<^verbatim>\<open>terminating\<close> keep Go's zero values.
\<close>

definition NewRotarySwitch :: "go_int \<Rightarrow> RotarySwitch" where
  "NewRotarySwitch maxPositions =
     \<lparr>ch = make_chan 16,
      channelSize = 16,
      position = 0,
      wrap_position = True,
      max_positions = maxPositions,
      state = stateInvalid,
      last_button = Low,
      loose = True,
      terminating = False\<rparr>"

section \<open>Runs of the two goroutines and the consumer\<close>

text \<open>
  What happens to a switch over time is a sequence of loop passes of the two handlers,
  each on the levels it reads, and of receives by the consumer of \<^verbatim>\<open>Channel()\<close>.
  A pass is taken as one step; a pass that blocks ends the run with \<open>None\<close>.
\<close>

datatype action = StateEdge Level Level | ButtonEdge Level | Receive

fun step :: "RotarySwitch \<Rightarrow> action \<Rightarrow> RotarySwitch option" where
  "step sw (StateEdge data_lv st_lv) = rotaryHandler sw data_lv st_lv"
| "step sw (ButtonEdge lv) = buttonHandler sw lv"
| "step sw Receive = Some (sw\<lparr>ch := chan_recv (ch sw)\<rparr>)"

fun run :: "RotarySwitch \<Rightarrow> action list \<Rightarrow> RotarySwitch option" where
  "run sw [] = Some sw"
| "run sw (a # as) = (case step sw a of None \<Rightarrow> None | Some sw' \<Rightarrow> run sw' as)"

text \<open>
  The channel of a switch built by \<^verbatim>\<open>NewRotarySwitch\<close> has the capacity recorded in
  \<^verbatim>\<open>channelSize\<close> and never holds more than that.
\<close>

definition chan_ok :: "RotarySwitch \<Rightarrow> bool" where
  "chan_ok sw \<longleftrightarrow>
     length (buf (ch sw)) \<le> cap (ch sw) \<and> int (cap (ch sw)) = sint (channelSize sw)"

section \<open>Example inputs\<close>

text \<open>
  The transition table in the comment of \<^verbatim>\<open>rotaryHandler\<close>: a clockwise turn is an edge
  with the state pin low and the data pin high, then one with the state pin high and
  the data pin low; a counter-clockwise turn is an edge with both pins low, then one
  with both pins high. In the second list the data pin is read too late on the second
  edge and shows high again, the case loose mode is for.
\<close>

definition cw_turn :: "action list" where
  "cw_turn = [StateEdge High Low, StateEdge Low High]"

definition cw_turn_loose :: "action list" where
  "cw_turn_loose = [StateEdge High Low, StateEdge High High]"

definition ccw_turn :: "action list" where
  "ccw_turn = [StateEdge Low Low, StateEdge High High]"

text \<open>
  A switch whose channel is full: the one reached from \<^verbatim>\<open>NewRotarySwitch(.., 24)\<close> by a
  button edge reading high, fifteen clockwise turns and the first edge of another
  clockwise turn, with nobody receiving.
\<close>

definition full_switch :: RotarySwitch where
  "full_switch =
     \<lparr>ch = \<lparr>buf = ButtonRelease # replicate 15 DirectionCW, cap = 16\<rparr>,
      channelSize = 16,
      position = 15,
      wrap_position = True,
      max_positions = 24,
      state = 0xd,
      last_button = High,
      loose = True,
      terminating = False\<rparr>"

text \<open>
  The switch of \<^verbatim>\<open>NewRotarySwitch(.., 24)\<close> after the first edge of a clockwise turn,
  and after the first edge of a counter-clockwise turn; and the switch of
  \<^verbatim>\<open>NewRotarySwitch(.., 4)\<close> with \<^verbatim>\<open>SetWrap(false)\<close> after the first edge of a
  counter-clockwise turn.
\<close>

definition half_cw :: RotarySwitch where
  "half_cw = (NewRotarySwitch 24)\<lparr>state := 0xd\<rparr>"

definition half_ccw :: RotarySwitch where
  "half_ccw = (NewRotarySwitch 24)\<lparr>state := 0xc\<rparr>"

definition nowrap_half_ccw :: RotarySwitch where
  "nowrap_half_ccw = (SetWrap (NewRotarySwitch 4) False)\<lparr>state := 0xc\<rparr>"

section \<open>The invariant of a wrapping switch\<close>

definition wrap_inv :: "RotarySwitch \<Rightarrow> bool" where
  "wrap_inv sw \<longleftrightarrow>
     chan_ok sw \<and> wrap_position sw \<and> 0 \<le>s position sw \<and> position sw <s max_positions sw"

section \<open>Basic facts\<close>

lemmas handler_defs = rotaryHandler_def buttonHandler_def shift_state_def chan_send_def
  make_chan_def chan_recv_def len_def stateInvalid_def NewRotarySwitch_def SetWrap_def
  SetLooseMode_def word_sle_eq word_sless_alt Let_def

lemma full_switch_reachable:
  "run (NewRotarySwitch 24)
     (ButtonEdge High # concat (replicate 15 cw_turn) @ [StateEdge High Low])
   = Some full_switch"
  by code_simp

lemma chan_send_ok:
  "chan_ok sw \<Longrightarrow> len (ch sw) < sint (channelSize sw) \<Longrightarrow>
   chan_send (ch sw) v = Some ((ch sw)\<lparr>buf := buf (ch sw) @ [v]\<rparr>)"
  by (simp add: chan_ok_def len_def chan_send_def)

lemma chan_ok_len: "chan_ok sw \<Longrightarrow> len (ch sw) \<le> sint (channelSize sw)"
  by (simp add: chan_ok_def len_def)

lemma chan_ok_New: "chan_ok (NewRotarySwitch maxPositions)"
  by (simp add: chan_ok_def NewRotarySwitch_def make_chan_def)

subsection \<open>The shift state\<close>

lemma and3: "(st::go_int) AND 3 = 0 \<or> st AND 3 = 1 \<or> st AND 3 = 2 \<or> st AND 3 = 3"
proof -
  let ?x = "st AND 3"
  have "?x \<le> 3" by (rule word_and_le1)
  then have "unat ?x \<le> 3" by (simp add: word_le_nat_alt)
  then have "unat ?x = 0 \<or> unat ?x = 1 \<or> unat ?x = 2 \<or> unat ?x = 3" by arith
  then show ?thesis by (simp add: word_unat_eq_iff)
qed

lemma shift_state_low: "shift_state st d s = shift_state (st AND 3) d s"
  by (simp only: shift_state_def and.right_idem)

lemma shift_state_0:
  "shift_state 0 d s =
     (if d = High then (if s = High then 3 else 1) else (if s = High then 2 else 0))"
  by (simp add: shift_state_def)

lemma shift_state_1:
  "shift_state 1 d s =
     (if d = High then (if s = High then 7 else 5) else (if s = High then 6 else 4))"
  by (simp add: shift_state_def)

lemma shift_state_2:
  "shift_state 2 d s =
     (if d = High then (if s = High then 11 else 9) else (if s = High then 10 else 8))"
  by (simp add: shift_state_def)

lemma shift_state_3:
  "shift_state 3 d s =
     (if d = High then (if s = High then 15 else 13) else (if s = High then 14 else 12))"
  by (simp add: shift_state_def)

lemmas shift_state_num = shift_state_0 shift_state_1 shift_state_2 shift_state_3

lemma shift_state_table:
  obtains k where "k \<in> {0, 1, 2, 3}" "\<And>d s. shift_state st d s = shift_state k d s"
proof -
  have "\<And>d s. shift_state st d s = shift_state (st AND 3) d s" by (rule shift_state_low)
  moreover have "st AND 3 \<in> {0, 1, 2, 3}" using and3 [of st] by blast
  ultimately show ?thesis using that by blast
qed

subsection \<open>Signed successor and predecessor without overflow\<close>

lemma sint_succ:
  fixes p m :: go_int
  assumes "sint p < sint m"
  shows "sint (p + 1) = sint p + 1"
proof -
  have "sint m < 2 ^ 63" using sint_lt [of m] by simp
  moreover have "- (2 ^ 63) \<le> sint p" using sint_ge [of p] by simp
  ultimately have "signed_take_bit 63 (sint p + 1) = sint p + 1"
    using assms by (intro signed_take_bit_int_eq_self) simp_all
  then show ?thesis by (simp add: sint_word_ariths)
qed

lemma sint_pred:
  fixes p m :: go_int
  assumes "sint m < sint p"
  shows "sint (p - 1) = sint p - 1"
proof -
  have "sint p < 2 ^ 63" using sint_lt [of p] by simp
  moreover have "- (2 ^ 63) \<le> sint m" using sint_ge [of m] by simp
  ultimately have "signed_take_bit 63 (sint p - 1) = sint p - 1"
    using assms by (intro signed_take_bit_int_eq_self) simp_all
  then show ?thesis by (simp add: sint_word_ariths)
qed

subsection \<open>The example switches\<close>

lemma half_reachable:
  "rotaryHandler (NewRotarySwitch 24) High Low = Some half_cw"
  "rotaryHandler (NewRotarySwitch 24) Low Low = Some half_ccw"
  "rotaryHandler (SetWrap (NewRotarySwitch 4) False) Low Low = Some nowrap_half_ccw"
  by (simp_all add: handler_defs half_cw_def half_ccw_def nowrap_half_ccw_def)

lemma half_cw_facts:
  "\<not> terminating half_cw" "chan_ok half_cw" "len (ch half_cw) < sint (channelSize half_cw)"
  by (simp_all add: half_cw_def NewRotarySwitch_def make_chan_def chan_ok_def len_def)

lemma half_ccw_facts:
  "\<not> terminating half_ccw" "chan_ok half_ccw" "len (ch half_ccw) < sint (channelSize half_ccw)"
  by (simp_all add: half_ccw_def NewRotarySwitch_def make_chan_def chan_ok_def len_def)

subsection \<open>The branches of a pass of the quadrature decoder\<close>

lemma rotaryHandler_cw:
  assumes "\<not> terminating sw" and "chan_ok sw" and "len (ch sw) < sint (channelSize sw)"
    and "shift_state (state sw) d s = 0x06 \<or> (loose sw \<and> shift_state (state sw) d s = 0x07)"
  shows "rotaryHandler sw d s =
    Some (sw\<lparr>position :=
               (if max_positions sw \<le>s position sw + 1
                then (if wrap_position sw then 0 else max_positions sw)
                else position sw + 1),
             ch := (ch sw)\<lparr>buf := buf (ch sw) @ [DirectionCW]\<rparr>,
             state := stateInvalid\<rparr>)"
  using assms(1,3,4) chan_send_ok [OF assms(2,3)]
  by (auto simp add: rotaryHandler_def Let_def)

lemma rotaryHandler_ccw:
  assumes "\<not> terminating sw" and "chan_ok sw" and "len (ch sw) < sint (channelSize sw)"
    and "shift_state (state sw) d s = 0x03"
  shows "rotaryHandler sw d s =
    Some (sw\<lparr>position :=
               (if position sw - 1 <s 0
                then (if wrap_position sw then max_positions sw - 1 else 0)
                else position sw - 1),
             ch := (ch sw)\<lparr>buf := buf (ch sw) @ [DirectionCCW]\<rparr>,
             state := stateInvalid\<rparr>)"
  using assms(1,3,4) chan_send_ok [OF assms(2,3)]
  by (auto simp add: rotaryHandler_def Let_def)

lemma rotaryHandler_noise:
  assumes "\<not> terminating sw"
    and "shift_state (state sw) d s \<noteq> 0x06"
    and "\<not> (loose sw \<and> shift_state (state sw) d s = 0x07)"
    and "shift_state (state sw) d s \<noteq> 0x03"
  shows "rotaryHandler sw d s = Some (sw\<lparr>state := shift_state (state sw) d s\<rparr>)"
  using assms by (auto simp add: rotaryHandler_def Let_def)

lemma rotaryHandler_full:
  assumes "\<not> terminating sw" and "len (ch sw) = sint (channelSize sw)"
  shows "rotaryHandler sw d s = Some (sw\<lparr>state := shift_state (state sw) d s\<rparr>)"
  using assms by (simp add: rotaryHandler_def)

lemma loose_pattern:
  assumes "shift_state st d s = 7"
  shows "d = High \<and> s = High \<and> shift_state st Low High = 6"
proof -
  obtain k where k: "k \<in> {0, 1, 2, 3}" and e: "\<And>d s. shift_state st d s = shift_state k d s"
    by (rule shift_state_table [of st]) blast
  from assms have "shift_state k d s = 7" by (simp only: e)
  with k have "d = High \<and> s = High \<and> shift_state k Low High = 6"
    by (auto simp add: shift_state_num split: if_splits)
  then show ?thesis by (simp only: e)
qed

lemma shift_state_bits:
  "bit (shift_state st d s) 0 \<longleftrightarrow> d = High"
  "bit (shift_state st d s) 1 \<longleftrightarrow> s = High"
  "bit (shift_state st d s) 2 \<longleftrightarrow> bit st 0"
  "bit (shift_state st d s) 3 \<longleftrightarrow> bit st 1"
  by (simp_all add: shift_state_def Let_def bit_simps)

lemma shift_state_high_bits: "drop_bit 4 (shift_state st d s) = 0"
proof -
  obtain k where k: "k \<in> {0, 1, 2, 3}" and e: "\<And>d s. shift_state st d s = shift_state k d s"
    by (rule shift_state_table [of st]) blast
  from k have "drop_bit 4 (shift_state k d s) = 0"
    by (auto simp add: shift_state_num)
  then show ?thesis by (simp only: e)
qed

lemma shift_after_sentinel:
  "shift_state stateInvalid d s \<in> {0xc, 0xd, 0xe, 0xf} \<and> drop_bit 2 (shift_state stateInvalid d s) = 3"
  by (cases d; cases s; simp add: shift_state_def stateInvalid_def)

subsection \<open>Steps keep the invariant of a wrapping switch\<close>

lemma cw_pos_in_range:
  fixes p m :: go_int
  assumes "0 \<le>s p" and "p <s m"
  shows "0 \<le>s (if m \<le>s p + 1 then 0 else p + 1) \<and> (if m \<le>s p + 1 then 0 else p + 1) <s m"
proof -
  from assms have b: "0 \<le> sint p" "sint p < sint m" by (simp_all add: word_sle_eq word_sless_alt)
  have s: "sint (p + 1) = sint p + 1" by (rule sint_succ [OF b(2)])
  show ?thesis using b s by (simp add: word_sle_eq word_sless_alt)
qed

lemma ccw_pos_in_range:
  fixes p m :: go_int
  assumes "0 \<le>s p" and "p <s m"
  shows "0 \<le>s (if p - 1 <s 0 then m - 1 else p - 1) \<and> (if p - 1 <s 0 then m - 1 else p - 1) <s m"
proof -
  from assms have b: "0 \<le> sint p" "sint p < sint m" by (simp_all add: word_sle_eq word_sless_alt)
  have "sint (- 1 :: go_int) < sint p" using b by simp
  then have s: "sint (p - 1) = sint p - 1" by (rule sint_pred)
  have "sint (0 :: go_int) < sint m" using b by simp
  then have sm: "sint (m - 1) = sint m - 1" by (rule sint_pred)
  show ?thesis using b s sm by (simp add: word_sle_eq word_sless_alt)
qed

lemma rotaryHandler_wrap_inv:
  assumes "wrap_inv sw"
  shows "\<exists>sw'. rotaryHandler sw d s = Some sw' \<and> wrap_inv sw'
           \<and> max_positions sw' = max_positions sw"
proof (cases "terminating sw")
  case True
  with assms show ?thesis by (simp add: rotaryHandler_def)
next
  case nt: False
  from assms have ok: "chan_ok sw" and w: "wrap_position sw"
    and lo: "0 \<le>s position sw" and hi: "position sw <s max_positions sw"
    by (simp_all add: wrap_inv_def)
  show ?thesis
  proof (cases "len (ch sw) = sint (channelSize sw)")
    case True
    from rotaryHandler_full [OF nt True, of d s] assms show ?thesis
      by (simp add: wrap_inv_def chan_ok_def)
  next
    case False
    with chan_ok_len [OF ok] have lt: "len (ch sw) < sint (channelSize sw)" by simp
    from ok lt have room: "Suc (length (buf (ch sw))) \<le> cap (ch sw)"
      by (simp add: chan_ok_def len_def)
    let ?sh = "shift_state (state sw) d s"
    consider (cw) "?sh = 0x06 \<or> (loose sw \<and> ?sh = 0x07)"
      | (ccw) "\<not> (?sh = 0x06 \<or> (loose sw \<and> ?sh = 0x07))" "?sh = 0x03"
      | (noise) "?sh \<noteq> 0x06" "\<not> (loose sw \<and> ?sh = 0x07)" "?sh \<noteq> 0x03"
      by blast
    then show ?thesis
    proof cases
      case cw
      from rotaryHandler_cw [OF nt ok lt cw] cw_pos_in_range [OF lo hi] ok w room
      show ?thesis by (auto simp add: wrap_inv_def chan_ok_def split: if_splits)
    next
      case ccw
      from rotaryHandler_ccw [OF nt ok lt ccw(2)] ccw_pos_in_range [OF lo hi] ok w room
      show ?thesis by (auto simp add: wrap_inv_def chan_ok_def split: if_splits)
    next
      case noise
      from rotaryHandler_noise [OF nt noise] assms show ?thesis
        by (simp add: wrap_inv_def chan_ok_def)
    qed
  qed
qed

lemma buttonHandler_wrap_inv:
  assumes "wrap_inv sw"
  shows "\<exists>sw'. buttonHandler sw lv = Some sw' \<and> wrap_inv sw'
           \<and> max_positions sw' = max_positions sw"
  using assms
  by (auto simp add: buttonHandler_def wrap_inv_def chan_ok_def len_def chan_send_def)

lemma step_wrap_inv:
  assumes "wrap_inv sw"
  shows "\<exists>sw'. step sw a = Some sw' \<and> wrap_inv sw' \<and> max_positions sw' = max_positions sw"
proof (cases a)
  case (StateEdge d s)
  with rotaryHandler_wrap_inv [OF assms, of d s] show ?thesis by simp
next
  case (ButtonEdge lv)
  with buttonHandler_wrap_inv [OF assms, of lv] show ?thesis by simp
next
  case Receive
  with assms show ?thesis
    by (auto simp add: wrap_inv_def chan_ok_def chan_recv_def)
qed

lemma run_wrap_inv:
  "wrap_inv sw \<Longrightarrow>
   \<exists>sw'. run sw as = Some sw' \<and> wrap_inv sw' \<and> max_positions sw' = max_positions sw"
proof (induction as arbitrary: sw)
  case Nil
  then show ?case by simp
next
  case (Cons a as)
  from step_wrap_inv [OF Cons.prems, of a] obtain sw1
    where s1: "step sw a = Some sw1" and i1: "wrap_inv sw1"
      and m1: "max_positions sw1 = max_positions sw" by blast
  from Cons.IH [OF i1] obtain sw' where "run sw1 as = Some sw'" "wrap_inv sw'"
    "max_positions sw' = max_positions sw1" by blast
  with s1 m1 show ?case by simp
qed

section \<open>The button decoder: press, release, repeated level\<close>

text \<open>
  Claim C6. A pass of \<^verbatim>\<open>buttonHandler\<close> that is not terminating and finds the channel
  below capacity enqueues exactly one \<^verbatim>\<open>ButtonPress\<close> when the level read is low and
  the last level high, exactly one \<^verbatim>\<open>ButtonRelease\<close> when the level read is high and
  the last level low, nothing when the level read is the last level, and stores the
  level read as the last level.
\<close>

theorem buttonHandler_below_capacity:
  assumes "\<not> terminating sw" and "chan_ok sw" and "len (ch sw) < sint (channelSize sw)"
  shows "\<exists>sw'. buttonHandler sw lv = Some sw'
           \<and> last_button sw' = lv
           \<and> (lv = Low \<and> last_button sw = High \<longrightarrow> buf (ch sw') = buf (ch sw) @ [ButtonPress])
           \<and> (lv = High \<and> last_button sw = Low \<longrightarrow> buf (ch sw') = buf (ch sw) @ [ButtonRelease])
           \<and> (lv = last_button sw \<longrightarrow> buf (ch sw') = buf (ch sw))"
  using assms chan_send_ok [OF assms(2,3)]
  by (cases lv; cases "last_button sw"; simp add: buttonHandler_def)

theorem buttonHandler_below_capacity_witness:
  "\<not> terminating (NewRotarySwitch 24) \<and> chan_ok (NewRotarySwitch 24)
   \<and> len (ch (NewRotarySwitch 24)) < sint (channelSize (NewRotarySwitch 24))
   \<and> map_option last_button (buttonHandler (NewRotarySwitch 24) High) = Some High
   \<and> map_option (buf \<circ> ch) (buttonHandler (NewRotarySwitch 24) High) = Some [ButtonRelease]"
proof -
  have h1: "\<not> terminating (NewRotarySwitch 24)" by (simp add: NewRotarySwitch_def)
  have h2: "chan_ok (NewRotarySwitch 24)" by (rule chan_ok_New)
  have h3: "len (ch (NewRotarySwitch 24)) < sint (channelSize (NewRotarySwitch 24))"
    by (simp add: NewRotarySwitch_def make_chan_def len_def)
  have h4: "last_button (NewRotarySwitch 24) = Low" "buf (ch (NewRotarySwitch 24)) = []"
    by (simp_all add: NewRotarySwitch_def make_chan_def)
  from buttonHandler_below_capacity [OF h1 h2 h3, of High] h1 h2 h3 h4
  show ?thesis by auto
qed

section \<open>A full channel\<close>

text \<open>
  Claim C4, as the code has it. When the channel already holds \<^verbatim>\<open>channelSize\<close> events,
  a pass of \<^verbatim>\<open>rotaryHandler\<close> only advances the shift state and a pass of
  \<^verbatim>\<open>buttonHandler\<close> changes nothing: no event is enqueued, the channel does not grow,
  the pass does not block, and the position and the last button level stay as they
  were, whatever the pins show.
\<close>

theorem handlers_channel_full:
  assumes "\<not> terminating sw" and "len (ch sw) = sint (channelSize sw)"
  shows "rotaryHandler sw data_lv st_lv =
           Some (sw\<lparr>state := shift_state (state sw) data_lv st_lv\<rparr>)
       \<and> buttonHandler sw lv = Some sw"
  using assms by (simp add: rotaryHandler_def buttonHandler_def)

theorem handlers_channel_full_witness:
  "\<not> terminating full_switch \<and> len (ch full_switch) = sint (channelSize full_switch)
   \<and> rotaryHandler full_switch Low High = Some (full_switch\<lparr>state := 0x06\<rparr>)
   \<and> buttonHandler full_switch Low = Some full_switch"
proof -
  have h1: "\<not> terminating full_switch" by (simp add: full_switch_def)
  have h2: "len (ch full_switch) = sint (channelSize full_switch)"
    by (simp add: full_switch_def len_def)
  have h3: "shift_state (state full_switch) Low High = 0x06"
    by (simp add: full_switch_def shift_state_def)
  from handlers_channel_full [OF h1 h2, of Low High Low] h1 h2 h3
  show ?thesis by simp
qed

text \<open>
  The claim as written fails on \<open>full_switch\<close>: the edge completes the clockwise
  pattern and the position stays 15; the button goes from high to low and the last
  button level stays high.
\<close>

theorem channel_full_state_not_updated:
  "len (ch full_switch) = sint (channelSize full_switch)
   \<and> shift_state (state full_switch) Low High = 0x06
   \<and> position full_switch = 15
   \<and> map_option position (rotaryHandler full_switch Low High) = Some 15
   \<and> last_button full_switch = High
   \<and> map_option last_button (buttonHandler full_switch Low) = Some High"
  by (simp add: handler_defs full_switch_def)

section \<open>Scenarios from construction\<close>

text \<open>
  Claim C8. From \<^verbatim>\<open>NewRotarySwitch\<close> with 24 positions (position 0, wrap and loose mode
  on, capacity 16), the samples of three clockwise turns followed by one
  counter-clockwise turn leave exactly the events clockwise, clockwise, clockwise,
  counter-clockwise in the channel and the position at 2; so do the samples in which
  each clockwise turn shows the loose pattern.
\<close>

theorem three_cw_one_ccw:
  "run (NewRotarySwitch 24) (cw_turn @ cw_turn @ cw_turn @ ccw_turn) =
     Some ((NewRotarySwitch 24)
       \<lparr>ch := \<lparr>buf = [DirectionCW, DirectionCW, DirectionCW, DirectionCCW], cap = 16\<rparr>,
        position := 2\<rparr>)
   \<and> run (NewRotarySwitch 24) (cw_turn_loose @ cw_turn_loose @ cw_turn_loose @ ccw_turn) =
     Some ((NewRotarySwitch 24)
       \<lparr>ch := \<lparr>buf = [DirectionCW, DirectionCW, DirectionCW, DirectionCCW], cap = 16\<rparr>,
        position := 2\<rparr>)"
  by (simp add: handler_defs cw_turn_def ccw_turn_def cw_turn_loose_def)

text \<open>
  Claim C9. The last button level is low at construction, so a first button edge that
  reads high puts a \<^verbatim>\<open>ButtonRelease\<close> at the head of the empty channel, with no
  \<^verbatim>\<open>ButtonPress\<close> before it.
\<close>

theorem first_button_edge_high_releases:
  "buttonHandler (NewRotarySwitch maxPositions) High =
     Some ((NewRotarySwitch maxPositions)
       \<lparr>ch := \<lparr>buf = [ButtonRelease], cap = 16\<rparr>, last_button := High\<rparr>)"
  by (simp add: handler_defs)

section \<open>The quadrature decoder: confirmed steps\<close>

text \<open>
  Claim C1, as the code has it. A pass of \<^verbatim>\<open>rotaryHandler\<close> that is not terminating
  and finds the channel below capacity does the following. When the shift state becomes
  \<open>0b0110\<close> it enqueues exactly one \<^verbatim>\<open>DirectionCW\<close>; the position becomes
  position + 1 when that is below \<^verbatim>\<open>max_positions\<close>, and 0 when it is not and wrap is on;
  with wrap on and the position in \<open>[0, max_positions)\<close> that is
  (position + 1) mod \<^verbatim>\<open>max_positions\<close>. When the shift state becomes \<open>0b0011\<close> it
  enqueues exactly one \<^verbatim>\<open>DirectionCCW\<close>; the position becomes position - 1 when that is
  not negative, and otherwise \<^verbatim>\<open>max_positions\<close> - 1 with wrap on and 0 with wrap off;
  with wrap on and the position in \<open>[0, max_positions)\<close> that is
  (position - 1) mod \<^verbatim>\<open>max_positions\<close>.
\<close>

theorem rotaryHandler_cw_ccw_step:
  assumes "\<not> terminating sw" and "chan_ok sw" and "len (ch sw) < sint (channelSize sw)"
  shows "(shift_state (state sw) d s = 0x06 \<longrightarrow>
           (\<exists>sw'. rotaryHandler sw d s = Some sw'
              \<and> buf (ch sw') = buf (ch sw) @ [DirectionCW]
              \<and> (position sw + 1 <s max_positions sw \<longrightarrow> position sw' = position sw + 1)
              \<and> (wrap_position sw \<and> max_positions sw \<le>s position sw + 1 \<longrightarrow> position sw' = 0)
              \<and> (wrap_position sw \<and> 0 \<le>s position sw \<and> position sw <s max_positions sw \<longrightarrow>
                   sint (position sw') = (sint (position sw) + 1) mod sint (max_positions sw))))
       \<and> (shift_state (state sw) d s = 0x03 \<longrightarrow>
           (\<exists>sw'. rotaryHandler sw d s = Some sw'
              \<and> buf (ch sw') = buf (ch sw) @ [DirectionCCW]
              \<and> (0 \<le>s position sw - 1 \<longrightarrow> position sw' = position sw - 1)
              \<and> (position sw - 1 <s 0 \<longrightarrow>
                   position sw' = (if wrap_position sw then max_positions sw - 1 else 0))
              \<and> (wrap_position sw \<and> 0 \<le>s position sw \<and> position sw <s max_positions sw \<longrightarrow>
                   sint (position sw') = (sint (position sw) - 1) mod sint (max_positions sw))))"
proof (intro conjI impI)
  assume sh: "shift_state (state sw) d s = 0x06"
  let ?p = "if max_positions sw \<le>s position sw + 1
            then (if wrap_position sw then 0 else max_positions sw) else position sw + 1"
  let ?sw' = "sw\<lparr>position := ?p, ch := (ch sw)\<lparr>buf := buf (ch sw) @ [DirectionCW]\<rparr>,
                 state := stateInvalid\<rparr>"
  have r: "rotaryHandler sw d s = Some ?sw'"
    using rotaryHandler_cw [OF assms, of d s] sh by simp
  have m: "sint (?p) = (sint (position sw) + 1) mod sint (max_positions sw)"
    if w: "wrap_position sw" and lo: "0 \<le>s position sw" and hi: "position sw <s max_positions sw"
  proof -
    from hi have lt: "sint (position sw) < sint (max_positions sw)" by (simp add: word_sless_alt)
    from lo have ge: "0 \<le> sint (position sw)" by (simp add: word_sle_eq)
    have s: "sint (position sw + 1) = sint (position sw) + 1" by (rule sint_succ [OF lt])
    show ?thesis
    proof (cases "max_positions sw \<le>s position sw + 1")
      case True
      then have "sint (position sw) + 1 = sint (max_positions sw)"
        using lt s by (simp add: word_sle_eq)
      with True w show ?thesis by simp
    next
      case False
      then have "sint (position sw) + 1 < sint (max_positions sw)"
        using s by (simp add: word_sle_eq)
      with False ge s show ?thesis by simp
    qed
  qed
  show "\<exists>sw'. rotaryHandler sw d s = Some sw'
              \<and> buf (ch sw') = buf (ch sw) @ [DirectionCW]
              \<and> (position sw + 1 <s max_positions sw \<longrightarrow> position sw' = position sw + 1)
              \<and> (wrap_position sw \<and> max_positions sw \<le>s position sw + 1 \<longrightarrow> position sw' = 0)
              \<and> (wrap_position sw \<and> 0 \<le>s position sw \<and> position sw <s max_positions sw \<longrightarrow>
                   sint (position sw') = (sint (position sw) + 1) mod sint (max_positions sw))"
    apply (rule exI [of _ ?sw'])
    using r m by (auto simp add: word_sle_eq word_sless_alt)
next
  assume sh: "shift_state (state sw) d s = 0x03"
  let ?p = "if position sw - 1 <s 0
            then (if wrap_position sw then max_positions sw - 1 else 0) else position sw - 1"
  let ?sw' = "sw\<lparr>position := ?p, ch := (ch sw)\<lparr>buf := buf (ch sw) @ [DirectionCCW]\<rparr>,
                 state := stateInvalid\<rparr>"
  have r: "rotaryHandler sw d s = Some ?sw'"
    using rotaryHandler_ccw [OF assms, of d s] sh by simp
  have m: "sint (?p) = (sint (position sw) - 1) mod sint (max_positions sw)"
    if w: "wrap_position sw" and lo: "0 \<le>s position sw" and hi: "position sw <s max_positions sw"
  proof -
    from hi have lt: "sint (position sw) < sint (max_positions sw)" by (simp add: word_sless_alt)
    from lo have ge: "0 \<le> sint (position sw)" by (simp add: word_sle_eq)
    have "sint (- 1 :: go_int) < sint (position sw)" using ge by simp
    then have s: "sint (position sw - 1) = sint (position sw) - 1" by (rule sint_pred)
    have "sint (0 :: go_int) < sint (max_positions sw)" using ge lt by simp
    then have sm: "sint (max_positions sw - 1) = sint (max_positions sw) - 1" by (rule sint_pred)
    show ?thesis
    proof (cases "position sw - 1 <s 0")
      case True
      then have z: "sint (position sw) = 0" using ge s by (simp add: word_sless_alt)
      have "(- 1) mod sint (max_positions sw) = sint (max_positions sw) - 1"
        using ge lt z by (simp add: zmod_minus1)
      with True w sm z show ?thesis by simp
    next
      case False
      then have "0 \<le> sint (position sw) - 1" using s by (simp add: word_sless_alt)
      with False lt s show ?thesis by simp
    qed
  qed
  show "\<exists>sw'. rotaryHandler sw d s = Some sw'
              \<and> buf (ch sw') = buf (ch sw) @ [DirectionCCW]
              \<and> (0 \<le>s position sw - 1 \<longrightarrow> position sw' = position sw - 1)
              \<and> (position sw - 1 <s 0 \<longrightarrow>
                   position sw' = (if wrap_position sw then max_positions sw - 1 else 0))
              \<and> (wrap_position sw \<and> 0 \<le>s position sw \<and> position sw <s max_positions sw \<longrightarrow>
                   sint (position sw') = (sint (position sw) - 1) mod sint (max_positions sw))"
    apply (rule exI [of _ ?sw'])
    using r m by (auto simp add: word_sle_eq word_sless_alt)
qed

theorem rotaryHandler_cw_ccw_step_witness:
  "\<not> terminating half_cw \<and> chan_ok half_cw \<and> len (ch half_cw) < sint (channelSize half_cw)
   \<and> shift_state (state half_cw) Low High = 0x06
   \<and> map_option position (rotaryHandler half_cw Low High) = Some 1
   \<and> map_option (buf \<circ> ch) (rotaryHandler half_cw Low High) = Some [DirectionCW]
   \<and> \<not> terminating half_ccw \<and> chan_ok half_ccw
   \<and> len (ch half_ccw) < sint (channelSize half_ccw)
   \<and> shift_state (state half_ccw) High High = 0x03
   \<and> map_option position (rotaryHandler half_ccw High High) = Some 23
   \<and> map_option (buf \<circ> ch) (rotaryHandler half_ccw High High) = Some [DirectionCCW]"
proof -
  have c: "shift_state (state half_cw) Low High = 0x06"
    "position half_cw + 1 <s max_positions half_cw" "position half_cw + 1 = 1"
    "buf (ch half_cw) = []"
    by (simp_all add: half_cw_def NewRotarySwitch_def make_chan_def shift_state_def
        word_sless_alt)
  have d: "shift_state (state half_ccw) High High = 0x03"
    "position half_ccw - 1 <s 0" "wrap_position half_ccw" "max_positions half_ccw - 1 = 23"
    "buf (ch half_ccw) = []"
    by (simp_all add: half_ccw_def NewRotarySwitch_def make_chan_def shift_state_def
        word_sless_alt)
  from rotaryHandler_cw_ccw_step [OF half_cw_facts, of Low High] rotaryHandler_cw_ccw_step [OF half_ccw_facts, of High High]
    half_cw_facts half_ccw_facts c d
  show ?thesis by auto
qed

text \<open>
  The claim as written, a decrement by 1 on every counter-clockwise step, fails with
  wrap off at position 0: the step is confirmed, and the position stays 0.
\<close>

theorem ccw_at_zero_without_wrap:
  "\<not> terminating nowrap_half_ccw
   \<and> len (ch nowrap_half_ccw) < sint (channelSize nowrap_half_ccw)
   \<and> \<not> wrap_position nowrap_half_ccw
   \<and> shift_state (state nowrap_half_ccw) High High = 0x03
   \<and> position nowrap_half_ccw = 0
   \<and> map_option position (rotaryHandler nowrap_half_ccw High High) = Some 0
   \<and> map_option position (rotaryHandler nowrap_half_ccw High High)
       \<noteq> Some (position nowrap_half_ccw - 1)"
  by (simp add: handler_defs nowrap_half_ccw_def)

text \<open>
  Claim C5. For a pass that is not terminating and finds the channel below capacity:
  when the shift state becomes \<open>0b0111\<close> and loose mode is on, exactly one
  \<^verbatim>\<open>DirectionCW\<close> is enqueued and the switch ends as it would have with the data pin
  read low, which is the canonical pattern \<open>0b0110\<close> from the same shift state; with
  loose mode off nothing is enqueued and the shift state stays \<open>0b0111\<close>. When the
  shift state becomes \<open>0b0011\<close>, the pass does the same whatever the loose flag is.
\<close>

theorem loose_mode_pattern:
  assumes "\<not> terminating sw" and "chan_ok sw" and "len (ch sw) < sint (channelSize sw)"
  shows "(shift_state (state sw) d s = 0x07 \<and> loose sw \<longrightarrow>
           (\<exists>sw'. rotaryHandler sw d s = Some sw'
              \<and> buf (ch sw') = buf (ch sw) @ [DirectionCW]
              \<and> state sw' = stateInvalid
              \<and> shift_state (state sw) Low s = 0x06
              \<and> rotaryHandler sw Low s = Some sw'))
       \<and> (shift_state (state sw) d s = 0x07 \<and> \<not> loose sw \<longrightarrow>
           rotaryHandler sw d s = Some (sw\<lparr>state := 0x07\<rparr>))
       \<and> (shift_state (state sw) d s = 0x03 \<longrightarrow>
           (\<exists>sw'. rotaryHandler sw d s = Some sw'
              \<and> buf (ch sw') = buf (ch sw) @ [DirectionCCW]
              \<and> rotaryHandler (sw\<lparr>loose := b\<rparr>) d s = Some (sw'\<lparr>loose := b\<rparr>)))"
proof (intro conjI impI)
  assume h: "shift_state (state sw) d s = 0x07 \<and> loose sw"
  from loose_pattern [of "state sw" d s] h
  have s: "s = High" and c: "shift_state (state sw) Low s = 0x06" by simp_all
  from h have a: "shift_state (state sw) d s = 0x06 \<or> (loose sw \<and> shift_state (state sw) d s = 0x07)"
    by simp
  from c have b: "shift_state (state sw) Low s = 0x06 \<or> (loose sw \<and> shift_state (state sw) Low s = 0x07)"
    by simp
  from rotaryHandler_cw [OF assms a] rotaryHandler_cw [OF assms b] c
  show "\<exists>sw'. rotaryHandler sw d s = Some sw'
              \<and> buf (ch sw') = buf (ch sw) @ [DirectionCW]
              \<and> state sw' = stateInvalid
              \<and> shift_state (state sw) Low s = 0x06
              \<and> rotaryHandler sw Low s = Some sw'"
    by simp
next
  assume h: "shift_state (state sw) d s = 0x07 \<and> \<not> loose sw"
  then have "shift_state (state sw) d s \<noteq> 0x06"
    "\<not> (loose sw \<and> shift_state (state sw) d s = 0x07)"
    "shift_state (state sw) d s \<noteq> 0x03" by simp_all
  from rotaryHandler_noise [OF assms(1) this] h
  show "rotaryHandler sw d s = Some (sw\<lparr>state := 0x07\<rparr>)" by simp
next
  assume h: "shift_state (state sw) d s = 0x03"
  have a: "\<not> terminating (sw\<lparr>loose := b\<rparr>)" "chan_ok (sw\<lparr>loose := b\<rparr>)"
    "len (ch (sw\<lparr>loose := b\<rparr>)) < sint (channelSize (sw\<lparr>loose := b\<rparr>))"
    "shift_state (state (sw\<lparr>loose := b\<rparr>)) d s = 0x03"
    using assms h by (simp_all add: chan_ok_def)
  from rotaryHandler_ccw [OF assms h] rotaryHandler_ccw [OF a]
  show "\<exists>sw'. rotaryHandler sw d s = Some sw'
              \<and> buf (ch sw') = buf (ch sw) @ [DirectionCCW]
              \<and> rotaryHandler (sw\<lparr>loose := b\<rparr>) d s = Some (sw'\<lparr>loose := b\<rparr>)"
    by simp
qed

theorem loose_mode_pattern_witness:
  "\<not> terminating half_cw \<and> chan_ok half_cw \<and> len (ch half_cw) < sint (channelSize half_cw)
   \<and> shift_state (state half_cw) High High = 0x07 \<and> loose half_cw
   \<and> map_option (buf \<circ> ch) (rotaryHandler half_cw High High) = Some [DirectionCW]
   \<and> rotaryHandler half_cw High High = rotaryHandler half_cw Low High
   \<and> \<not> terminating (SetLooseMode half_cw False) \<and> chan_ok (SetLooseMode half_cw False)
   \<and> len (ch (SetLooseMode half_cw False)) < sint (channelSize (SetLooseMode half_cw False))
   \<and> shift_state (state (SetLooseMode half_cw False)) High High = 0x07
   \<and> \<not> loose (SetLooseMode half_cw False)
   \<and> rotaryHandler (SetLooseMode half_cw False) High High
       = Some ((SetLooseMode half_cw False)\<lparr>state := 0x07\<rparr>)
   \<and> \<not> terminating half_ccw \<and> chan_ok half_ccw
   \<and> len (ch half_ccw) < sint (channelSize half_ccw)
   \<and> shift_state (state half_ccw) High High = 0x03
   \<and> map_option (buf \<circ> ch) (rotaryHandler half_ccw High High) = Some [DirectionCCW]
   \<and> map_option (buf \<circ> ch) (rotaryHandler (half_ccw\<lparr>loose := False\<rparr>) High High)
       = Some [DirectionCCW]"
proof -
  have n: "\<not> terminating (SetLooseMode half_cw False)" "chan_ok (SetLooseMode half_cw False)"
    "len (ch (SetLooseMode half_cw False)) < sint (channelSize (SetLooseMode half_cw False))"
    using half_cw_facts by (simp_all add: SetLooseMode_def chan_ok_def)
  have c: "shift_state (state half_cw) High High = 0x07" "loose half_cw"
    "buf (ch half_cw) = []"
    "shift_state (state (SetLooseMode half_cw False)) High High = 0x07"
    "\<not> loose (SetLooseMode half_cw False)"
    by (simp_all add: half_cw_def NewRotarySwitch_def make_chan_def shift_state_def
        SetLooseMode_def)
  have d: "shift_state (state half_ccw) High High = 0x03" "buf (ch half_ccw) = []"
    by (simp_all add: half_ccw_def NewRotarySwitch_def make_chan_def shift_state_def)
  from loose_mode_pattern [OF half_cw_facts, of High High] loose_mode_pattern [OF n, of High High]
    loose_mode_pattern [OF half_ccw_facts, of High High False]
    half_cw_facts half_ccw_facts n c d
  show ?thesis by auto
qed

section \<open>The shift state\<close>

text \<open>
  Claim C7. On each edge that is processed, the new shift state has the level of the
  data pin in bit 0, the level of the state pin in bit 1, bits 0 and 1 of the old shift
  state in bits 2 and 3, and nothing above bit 3. After the pass, either no event was
  enqueued and the shift state is that value, or exactly one event was enqueued and the
  shift state is the sentinel; for a value that is none of the recognised patterns no
  event is enqueued and the shift state is not reset.
\<close>

theorem shift_state_advance_and_reset:
  assumes "\<not> terminating sw" and "chan_ok sw"
  shows "\<exists>sw'. rotaryHandler sw d s = Some sw'
     \<and> (bit (shift_state (state sw) d s) 0 \<longleftrightarrow> d = High)
     \<and> (bit (shift_state (state sw) d s) 1 \<longleftrightarrow> s = High)
     \<and> (bit (shift_state (state sw) d s) 2 \<longleftrightarrow> bit (state sw) 0)
     \<and> (bit (shift_state (state sw) d s) 3 \<longleftrightarrow> bit (state sw) 1)
     \<and> drop_bit 4 (shift_state (state sw) d s) = 0
     \<and> ((buf (ch sw') = buf (ch sw) \<and> state sw' = shift_state (state sw) d s)
        \<or> ((\<exists>e. buf (ch sw') = buf (ch sw) @ [e]) \<and> state sw' = stateInvalid))
     \<and> (shift_state (state sw) d s \<noteq> 0x06
          \<and> \<not> (loose sw \<and> shift_state (state sw) d s = 0x07)
          \<and> shift_state (state sw) d s \<noteq> 0x03
        \<longrightarrow> buf (ch sw') = buf (ch sw) \<and> state sw' = shift_state (state sw) d s)"
proof -
  let ?sh = "shift_state (state sw) d s"
  have "\<exists>sw'. rotaryHandler sw d s = Some sw'
     \<and> ((buf (ch sw') = buf (ch sw) \<and> state sw' = ?sh)
        \<or> ((\<exists>e. buf (ch sw') = buf (ch sw) @ [e]) \<and> state sw' = stateInvalid))
     \<and> (?sh \<noteq> 0x06 \<and> \<not> (loose sw \<and> ?sh = 0x07) \<and> ?sh \<noteq> 0x03
        \<longrightarrow> buf (ch sw') = buf (ch sw) \<and> state sw' = ?sh)"
  proof (cases "len (ch sw) = sint (channelSize sw)")
    case True
    from rotaryHandler_full [OF assms(1) True, of d s] show ?thesis by simp
  next
    case False
    with chan_ok_len [OF assms(2)] have lt: "len (ch sw) < sint (channelSize sw)" by simp
    consider (cw) "?sh = 0x06 \<or> (loose sw \<and> ?sh = 0x07)"
      | (ccw) "\<not> (?sh = 0x06 \<or> (loose sw \<and> ?sh = 0x07))" "?sh = 0x03"
      | (noise) "?sh \<noteq> 0x06" "\<not> (loose sw \<and> ?sh = 0x07)" "?sh \<noteq> 0x03"
      by blast
    then show ?thesis
    proof cases
      case cw
      from rotaryHandler_cw [OF assms lt cw] cw show ?thesis by auto
    next
      case ccw
      from rotaryHandler_ccw [OF assms lt ccw(2)] ccw show ?thesis by auto
    next
      case noise
      from rotaryHandler_noise [OF assms(1) noise] show ?thesis by simp
    qed
  qed
  with shift_state_bits [of "state sw" d s] shift_state_high_bits [of "state sw" d s]
  show ?thesis by simp
qed

theorem shift_state_advance_and_reset_witness:
  "\<not> terminating half_cw \<and> chan_ok half_cw
   \<and> shift_state (state half_cw) Low High = 0x06
   \<and> map_option state (rotaryHandler half_cw Low High) = Some stateInvalid
   \<and> \<not> terminating half_ccw \<and> chan_ok half_ccw
   \<and> shift_state (state half_ccw) Low High = 0x02
   \<and> rotaryHandler half_ccw Low High = Some (half_ccw\<lparr>state := 0x02\<rparr>)"
proof -
  have c: "shift_state (state half_cw) Low High = 0x06"
    "shift_state (state half_ccw) Low High = 0x02"
    "rotaryHandler half_ccw Low High = Some (half_ccw\<lparr>state := 0x02\<rparr>)"
    by (simp_all add: handler_defs half_cw_def half_ccw_def)
  have e: "stateInvalid \<noteq> 0x06" by (simp add: stateInvalid_def)
  from shift_state_advance_and_reset [OF half_cw_facts(1,2), of Low High] shift_state_advance_and_reset [OF half_ccw_facts(1,2), of Low High]
    half_cw_facts half_ccw_facts c e
  show ?thesis by (auto simp add: handler_defs half_cw_def)
qed

text \<open>
  Claim C10. After a pass of \<^verbatim>\<open>rotaryHandler\<close> that enqueued an event the shift state
  is the sentinel \<open>0xF\<close>; on the next edge, whatever the pins show, the shift state
  becomes one of \<open>0b1100\<close> .. \<open>0b1111\<close>, with \<open>0b11\<close> in its two upper bits, and
  the pass enqueues nothing. So two edges in a row never both produce an event.
\<close>

theorem no_event_right_after_event:
  assumes "rotaryHandler sw d s = Some sw1" and "buf (ch sw1) \<noteq> buf (ch sw)"
  shows "state sw1 = 0xf
       \<and> shift_state (state sw1) d' s' \<in> {0xc, 0xd, 0xe, 0xf}
       \<and> drop_bit 2 (shift_state (state sw1) d' s') = 3
       \<and> rotaryHandler sw1 d' s' = Some (sw1\<lparr>state := shift_state (state sw1) d' s'\<rparr>)"
proof -
  from assms have st: "state sw1 = stateInvalid" and nt: "\<not> terminating sw1"
    by (auto simp add: rotaryHandler_def Let_def split: if_splits option.splits)
  have sh: "shift_state stateInvalid d' s' \<in> {0xc, 0xd, 0xe, 0xf}"
    "drop_bit 2 (shift_state stateInvalid d' s') = 3"
    using shift_after_sentinel [of d' s'] by simp_all
  from sh(1) have n: "shift_state (state sw1) d' s' \<noteq> 0x06"
    "\<not> (loose sw1 \<and> shift_state (state sw1) d' s' = 0x07)"
    "shift_state (state sw1) d' s' \<noteq> 0x03"
    unfolding st by auto
  from rotaryHandler_noise [OF nt n] sh st show ?thesis
    by (simp add: stateInvalid_def)
qed

theorem no_event_right_after_event_witness:
  "rotaryHandler half_cw Low High =
     Some ((NewRotarySwitch 24)\<lparr>ch := \<lparr>buf = [DirectionCW], cap = 16\<rparr>, position := 1\<rparr>)
   \<and> buf (ch ((NewRotarySwitch 24)\<lparr>ch := \<lparr>buf = [DirectionCW], cap = 16\<rparr>, position := 1\<rparr>))
       \<noteq> buf (ch half_cw)
   \<and> rotaryHandler
        ((NewRotarySwitch 24)\<lparr>ch := \<lparr>buf = [DirectionCW], cap = 16\<rparr>, position := 1\<rparr>)
        Low High
      = Some ((NewRotarySwitch 24)
          \<lparr>ch := \<lparr>buf = [DirectionCW], cap = 16\<rparr>, position := 1, state := 0xe\<rparr>)"
proof -
  let ?sw1 = "(NewRotarySwitch 24)\<lparr>ch := \<lparr>buf = [DirectionCW], cap = 16\<rparr>, position := 1\<rparr>"
  have a: "rotaryHandler half_cw Low High = Some ?sw1"
    by (simp add: handler_defs half_cw_def)
  have b: "buf (ch ?sw1) \<noteq> buf (ch half_cw)"
    by (simp add: half_cw_def NewRotarySwitch_def make_chan_def)
  have c: "shift_state (state ?sw1) Low High = 0xe"
    by (simp add: NewRotarySwitch_def stateInvalid_def shift_state_def)
  from no_event_right_after_event [OF a b, of Low High] a b c show ?thesis by simp
qed

section \<open>The range of the position\<close>

text \<open>
  Claim C2. With wrap on, \<^verbatim>\<open>max_positions\<close> above 0 and the position at 0, after every
  sequence of state-pin edges, button-pin edges and receives the run has not blocked and
  the position is at least 0 and below \<^verbatim>\<open>max_positions\<close>.
\<close>

theorem position_in_range_with_wrap:
  assumes "wrap_position sw" and "0 <s max_positions sw" and "position sw = 0"
    and "chan_ok sw"
  shows "\<exists>sw'. run sw as = Some sw' \<and> max_positions sw' = max_positions sw
           \<and> 0 \<le>s position sw' \<and> position sw' <s max_positions sw"
proof -
  from assms have "wrap_inv sw" by (simp add: wrap_inv_def)
  from run_wrap_inv [OF this, of as] show ?thesis by (auto simp add: wrap_inv_def)
qed

theorem position_in_range_with_wrap_witness:
  "wrap_position (NewRotarySwitch 24) \<and> 0 <s max_positions (NewRotarySwitch 24)
   \<and> position (NewRotarySwitch 24) = 0 \<and> chan_ok (NewRotarySwitch 24)
   \<and> (\<exists>sw'. run (NewRotarySwitch 24) (ccw_turn @ [ButtonEdge High, Receive]) = Some sw'
         \<and> max_positions sw' = max_positions (NewRotarySwitch 24)
         \<and> 0 \<le>s position sw' \<and> position sw' <s max_positions (NewRotarySwitch 24))"
proof -
  have h: "wrap_position (NewRotarySwitch 24)" "0 <s max_positions (NewRotarySwitch 24)"
    "position (NewRotarySwitch 24) = 0"
    by (simp_all add: NewRotarySwitch_def word_sless_alt)
  from position_in_range_with_wrap [OF h chan_ok_New, of "ccw_turn @ [ButtonEdge High, Receive]"] h chan_ok_New
  show ?thesis by simp
qed

text \<open>
  Claim C3. With wrap off the position is to stay within \<open>[0, max_positions - 1]\<close>,
  as the comment of \<^verbatim>\<open>Position()\<close> says. The code does not keep it there: from
  \<^verbatim>\<open>NewRotarySwitch(.., 4)\<close> with \<^verbatim>\<open>SetWrap(false)\<close>, four clockwise turns leave the
  position at 4.
\<close>

theorem position_reaches_max_positions_without_wrap:
  "run (SetWrap (NewRotarySwitch 4) False) (cw_turn @ cw_turn @ cw_turn @ cw_turn) =
     Some ((SetWrap (NewRotarySwitch 4) False)
       \<lparr>ch := \<lparr>buf = [DirectionCW, DirectionCW, DirectionCW, DirectionCW], cap = 16\<rparr>,
        position := 4\<rparr>)
   \<and> map_option Position
        (run (SetWrap (NewRotarySwitch 4) False) (cw_turn @ cw_turn @ cw_turn @ cw_turn))
      = Some 4
   \<and> max_positions (SetWrap (NewRotarySwitch 4) False) - 1 = 3"
  by (simp add: handler_defs cw_turn_def Position_def)

end
